theory Spec2Isabelle
  imports Complex_Main
begin

section \<open>The volatility-stop engine of \<^verbatim>\<open>src/lib/volatility.ts\<close>\<close>

text \<open>
  The embedding follows \<^verbatim>\<open>src/lib/volatility.ts\<close> function by function.

  \<^item> A TypeScript \<^verbatim>\<open>number\<close> that holds a price or a range is a \<^typ>\<open>real\<close>: the
    arithmetic is the exact one, so the rounding error of IEEE doubles, \<^verbatim>\<open>NaN\<close> and
    the infinities are not part of the model. Where the source divides by zero
    (\<^verbatim>\<open>period = 0\<close>, \<^verbatim>\<open>currentPrice = 0\<close>) the source yields \<^verbatim>\<open>NaN\<close> or an infinity
    and the model yields HOL's \<open>x / 0 = 0\<close>.
  \<^item> \<^verbatim>\<open>period\<close> and \<^verbatim>\<open>atrPeriod\<close> count days: they are natural numbers, as are
    array lengths and loop indices.
  \<^item> \<^verbatim>\<open>throw new Error(msg)\<close> is the value \<open>Inl (Error msg)\<close>; a normal return is \<open>Inr\<close>.
  \<^item> The fields of the three interfaces carry a prefix (\<open>sd_\<close>, \<open>vs_\<close>, \<open>vr_\<close>), since
    the interfaces share field names with each other and with local variables.
\<close>

subsection \<open>Data\<close>

record StockData =
  sd_date :: string
  sd_high :: real
  sd_low :: real
  sd_close :: real
  sd_open :: "real option"
  sd_volume :: "real option"

datatype Signal = HOLD | SELL | BUY

datatype Trend = UP | DOWN

record VolatilityStop =
  vs_atr :: real
  vs_stopLoss :: real
  vs_stopLossPercentage :: real
  vs_recommendation :: Signal

record VolatilityStopResult =
  vr_date :: string
  vr_close :: real
  vr_atr :: real
  vr_stopLoss :: real
  vr_stopLossPercentage :: real
  vr_trend :: Trend
  vr_signal :: Signal

datatype error = Error string

subsection \<open>Library functions of the host language\<close>

text \<open>
  \<^verbatim>\<open>Number(x.toFixed(2))\<close>. \<^verbatim>\<open>toFixed\<close> works on the absolute value and puts the
  sign back; at \<open>10\<^sup>2\<^sup>1\<close> and above it prints the number itself; below, it takes the
  integer \<open>n\<close> with \<open>n / 100\<close> closest to the value, the larger one on a tie.
\<close>

definition toFixed2 :: "real \<Rightarrow> real" where
  "toFixed2 x =
     (if x < 0 then
        (if 10 ^ 21 \<le> - x then x else - (real_of_int \<lfloor>(- x) * 100 + 1 / 2\<rfloor> / 100))
      else
        (if 10 ^ 21 \<le> x then x else real_of_int \<lfloor>x * 100 + 1 / 2\<rfloor> / 100))"

text \<open>The decimal digits of a natural number, as a template literal prints it.\<close>

definition digit_char :: "nat \<Rightarrow> char" where
  "digit_char d = ''0123456789'' ! d"

fun string_of_nat :: "nat \<Rightarrow> string" where
  "string_of_nat n =
     (if n < 10 then [digit_char n]
      else string_of_nat (n div 10) @ [digit_char (n mod 10)])"

declare string_of_nat.simps [simp del]

subsection \<open>True range and ATR\<close>

definition calculateTrueRange :: "real \<Rightarrow> real \<Rightarrow> real \<Rightarrow> real" where
  "calculateTrueRange high low previousClose =
     (let highLow = high - low;
          highPrevClose = \<bar>high - previousClose\<bar>;
          lowPrevClose = \<bar>low - previousClose\<bar>
      in max (max highLow highPrevClose) lowPrevClose)"

text \<open>
  \<^verbatim>\<open>for (let i = 1; i < data.length; i++) trueRanges.push(...)\<close>: the loop of lines
  46 to 49, with the index and the array it grows as arguments.
\<close>

function trueRangesLoop :: "StockData list \<Rightarrow> nat \<Rightarrow> real list \<Rightarrow> real list" where
  "trueRangesLoop data i trueRanges =
     (if i < length data then
        trueRangesLoop data (i + 1)
          (trueRanges @
            [calculateTrueRange (sd_high (data ! i)) (sd_low (data ! i)) (sd_close (data ! (i - 1)))])
      else trueRanges)"
  by pat_completeness auto
termination
  by (relation "measure (\<lambda>(data, i, trueRanges). length data - i)") auto

declare trueRangesLoop.simps [simp del]

text \<open>
  \<^verbatim>\<open>for (let i = period; i < trueRanges.length; i++) atr = (atr * (period - 1) + trueRanges[i]) / period\<close>:
  the loop of lines 56 to 58.
\<close>

function smoothLoop :: "real list \<Rightarrow> nat \<Rightarrow> nat \<Rightarrow> real \<Rightarrow> real" where
  "smoothLoop trueRanges period i atr =
     (if i < length trueRanges then
        smoothLoop trueRanges period (i + 1)
          ((atr * (real period - 1) + trueRanges ! i) / real period)
      else atr)"
  by pat_completeness auto
termination
  by (relation "measure (\<lambda>(trueRanges, period, i, atr). length trueRanges - i)") auto

declare smoothLoop.simps [simp del]

definition calculateATR :: "StockData list \<Rightarrow> nat \<Rightarrow> error + real" where
  "calculateATR data period =
     (if length data < period + 1 then
        Inl (Error (''Need at least '' @ string_of_nat (period + 1)
                    @ '' data points to calculate ATR''))
      else
        (let trueRanges = trueRangesLoop data 1 [];
             initialATR = foldl (\<lambda>sum tr. sum + tr) 0 (take period trueRanges) / real period
         in Inr (smoothLoop trueRanges period period initialATR)))"

subsection \<open>The static stop\<close>

definition calculateVolatilityStop :: "real \<Rightarrow> real \<Rightarrow> real \<Rightarrow> VolatilityStop" where
  "calculateVolatilityStop currentPrice atr multiplier =
     (let stopLoss = currentPrice - atr * multiplier;
          stopLossPercentage = ((currentPrice - stopLoss) / currentPrice) * 100;
          recommendation =
            (if stopLossPercentage > 10 then SELL
             else if stopLossPercentage < 3 then BUY
             else HOLD)
      in \<lparr> vs_atr = toFixed2 atr,
           vs_stopLoss = toFixed2 stopLoss,
           vs_stopLossPercentage = toFixed2 stopLossPercentage,
           vs_recommendation = recommendation \<rparr>)"

subsection \<open>The trailing stop\<close>

text \<open>
  Lines 160 to 185: the stop and the trend of one iteration, from the stop and the
  trend the previous iteration left. \<open>first\<close> is the test \<^verbatim>\<open>i === atrPeriod\<close>.
\<close>

definition trailingStep ::
  "bool \<Rightarrow> real \<Rightarrow> real \<Rightarrow> real \<Rightarrow> real \<Rightarrow> Trend \<Rightarrow> real \<times> Trend" where
  "trailingStep first currentPrice stopUp stopDown previousStop trend =
     (if first then (stopUp, UP)
      else if trend = UP then
        (let stopLoss = max previousStop stopUp
         in if currentPrice < previousStop then (stopDown, DOWN) else (stopLoss, UP))
      else
        (let stopLoss = min previousStop stopDown
         in if currentPrice > previousStop then (stopUp, UP) else (stopLoss, DOWN)))"

text \<open>Lines 190 to 197: the signal of one iteration.\<close>

definition trailingSignal :: "Trend \<Rightarrow> real \<Rightarrow> real \<Rightarrow> real \<Rightarrow> Signal" where
  "trailingSignal trend currentPrice stopLoss stopLossPercentage =
     (if trend = UP \<and> currentPrice > stopLoss then
        (if stopLossPercentage < 3 then BUY else HOLD)
      else if trend = DOWN \<and> currentPrice < stopLoss then
        (if stopLossPercentage < 3 then SELL else HOLD)
      else HOLD)"

text \<open>
  The loop of lines 153 to 210. Its state is the index, \<^verbatim>\<open>previousStop\<close>, \<^verbatim>\<open>trend\<close>
  and the array \<^verbatim>\<open>results\<close>.
\<close>

function trailingLoop ::
  "StockData list \<Rightarrow> nat \<Rightarrow> real \<Rightarrow> real \<Rightarrow> nat \<Rightarrow> real \<Rightarrow> Trend
     \<Rightarrow> VolatilityStopResult list \<Rightarrow> VolatilityStopResult list" where
  "trailingLoop data atrPeriod multiplier atr i previousStop trend results =
     (if i < length data then
        (let currentPrice = sd_close (data ! i);
             stopUp = currentPrice - multiplier * atr;
             stopDown = currentPrice + multiplier * atr;
             (stopLoss, trend') =
                trailingStep (i = atrPeriod) currentPrice stopUp stopDown previousStop trend;
             stopLossPercentage = \<bar>((currentPrice - stopLoss) / currentPrice) * 100\<bar>;
             signal = trailingSignal trend' currentPrice stopLoss stopLossPercentage
         in trailingLoop data atrPeriod multiplier atr (i + 1) stopLoss trend'
              (results @
                [\<lparr> vr_date = sd_date (data ! i),
                    vr_close = toFixed2 currentPrice,
                    vr_atr = toFixed2 atr,
                    vr_stopLoss = toFixed2 stopLoss,
                    vr_stopLossPercentage = toFixed2 stopLossPercentage,
                    vr_trend = trend',
                    vr_signal = signal \<rparr>]))
      else results)"
  by pat_completeness auto
termination
  by (relation "measure (\<lambda>(data, atrPeriod, multiplier, atr, i, previousStop, trend, results).
                   length data - i)") auto

declare trailingLoop.simps [simp del]

definition calculateVolatilityStopTrailing ::
  "StockData list \<Rightarrow> nat \<Rightarrow> real \<Rightarrow> error + VolatilityStopResult list" where
  "calculateVolatilityStopTrailing data atrPeriod multiplier =
     (if length data < atrPeriod + 1 then
        Inl (Error (''Need at least '' @ string_of_nat (atrPeriod + 1)
                    @ '' data points to calculate Volatility Stop''))
      else
        (case calculateATR data atrPeriod of
           Inl e \<Rightarrow> Inl e
         | Inr atr \<Rightarrow> Inr (trailingLoop data atrPeriod multiplier atr atrPeriod 0 UP [])))"

subsection \<open>The point one iteration emits\<close>

text \<open>
  Line 187: \<^verbatim>\<open>Math.abs(((currentPrice - stopLoss) / currentPrice) * 100)\<close>.
\<close>

definition distancePercentage :: "real \<Rightarrow> real \<Rightarrow> real" where
  "distancePercentage price stop = \<bar>((price - stop) / price) * 100\<bar>"

text \<open>
  Lines 187 to 207: the record pushed for the input point \<open>d\<close> when the iteration has
  settled on the stop \<open>fst s\<close> and the trend \<open>snd s\<close>.
\<close>

definition trailingPoint :: "real \<Rightarrow> StockData \<Rightarrow> real \<times> Trend \<Rightarrow> VolatilityStopResult" where
  "trailingPoint atr d s =
     \<lparr> vr_date = sd_date d,
       vr_close = toFixed2 (sd_close d),
       vr_atr = toFixed2 atr,
       vr_stopLoss = toFixed2 (fst s),
       vr_stopLossPercentage = toFixed2 (distancePercentage (sd_close d) (fst s)),
       vr_trend = snd s,
       vr_signal =
         trailingSignal (snd s) (sd_close d) (fst s) (distancePercentage (sd_close d) (fst s)) \<rparr>"

section \<open>The algorithms as the specification words them\<close>

subsection \<open>ATR as a fold\<close>

text \<open>
  The true range of one adjacent pair: the largest of \<open>high - low\<close>,
  \<open>|high - prevClose|\<close> and \<open>|low - prevClose|\<close>.
\<close>

definition trueRangeOfPair :: "StockData \<Rightarrow> StockData \<Rightarrow> real" where
  "trueRangeOfPair prev cur =
     Max {sd_high cur - sd_low cur, \<bar>sd_high cur - sd_close prev\<bar>, \<bar>sd_low cur - sd_close prev\<bar>}"

text \<open>One true range for every adjacent pair: \<open>length - 1\<close> values.\<close>

definition referenceTrueRanges :: "StockData list \<Rightarrow> real list" where
  "referenceTrueRanges data = map (\<lambda>(prev, cur). trueRangeOfPair prev cur) (zip data (tl data))"

text \<open>Wilder's smoothing: \<open>atr = (atr * (period - 1) + tr) / period\<close>.\<close>

definition wilderStep :: "nat \<Rightarrow> real \<Rightarrow> real \<Rightarrow> real" where
  "wilderStep period atr tr = (atr * (real period - 1) + tr) / real period"

text \<open>
  The seed is the unweighted mean of the first \<open>period\<close> true ranges; every later true
  range is smoothed in, in order.
\<close>

definition referenceATR :: "StockData list \<Rightarrow> nat \<Rightarrow> real" where
  "referenceATR data period =
     (let trs = referenceTrueRanges data;
          seed = sum_list (take period trs) / real period
      in foldl (wilderStep period) seed (drop period trs))"

subsection \<open>The trailing stop as a fold\<close>

text \<open>The state of the fold: the stop and the trend.\<close>

type_synonym stopState = "real \<times> Trend"

text \<open>Initialize: the trend is UP and the stop is \<open>price - multiplier * atr\<close>.\<close>

definition initialState :: "real \<Rightarrow> real \<Rightarrow> real \<Rightarrow> stopState" where
  "initialState multiplier atr price = (price - multiplier * atr, UP)"

text \<open>
  The reducer. In an uptrend the stop ratchets upward, unless the price is below the
  previous stop: then the trend flips to DOWN and the stop resets to
  \<open>price + multiplier * atr\<close>. In a downtrend the stop ratchets downward, unless the price
  is above the previous stop: then the trend flips to UP and the stop resets to
  \<open>price - multiplier * atr\<close>.
\<close>

fun nextState :: "real \<Rightarrow> real \<Rightarrow> stopState \<Rightarrow> real \<Rightarrow> stopState" where
  "nextState multiplier atr (previousStop, UP) price =
     (if price < previousStop then (price + multiplier * atr, DOWN)
      else (max previousStop (price - multiplier * atr), UP))"
| "nextState multiplier atr (previousStop, DOWN) price =
     (if price > previousStop then (price - multiplier * atr, UP)
      else (min previousStop (price + multiplier * atr), DOWN))"

text \<open>The states the reducer passes through after the state \<open>s\<close>, one for each price.\<close>

fun statesFrom :: "real \<Rightarrow> real \<Rightarrow> stopState \<Rightarrow> real list \<Rightarrow> stopState list" where
  "statesFrom multiplier atr s [] = []"
| "statesFrom multiplier atr s (price # prices) =
     nextState multiplier atr s price
       # statesFrom multiplier atr (nextState multiplier atr s price) prices"

text \<open>The states of the whole fold: the first price initializes, the later ones reduce.\<close>

definition referenceStates :: "real \<Rightarrow> real \<Rightarrow> real list \<Rightarrow> stopState list" where
  "referenceStates multiplier atr prices =
     (case prices of
        [] \<Rightarrow> []
      | price # later \<Rightarrow>
          initialState multiplier atr price
            # statesFrom multiplier atr (initialState multiplier atr price) later)"

section \<open>Example series\<close>

text \<open>A day on which high, low and close coincide.\<close>

definition flatBar :: "string \<Rightarrow> real \<Rightarrow> StockData" where
  "flatBar d c = \<lparr> sd_date = d, sd_high = c, sd_low = c, sd_close = c,
                   sd_open = None, sd_volume = None \<rparr>"

definition risingSeries :: "StockData list" where
  "risingSeries =
     [flatBar ''2024-01-01'' 100, flatBar ''2024-01-02'' 101, flatBar ''2024-01-03'' 103]"

definition reversalSeries :: "StockData list" where
  "reversalSeries =
     [flatBar ''2024-01-01'' 100, flatBar ''2024-01-02'' 101, flatBar ''2024-01-03'' 103,
      flatBar ''2024-01-04'' 90, flatBar ''2024-01-05'' 90.5]"

definition roundingSeries :: "StockData list" where
  "roundingSeries =
     [flatBar ''2024-01-01'' 100, flatBar ''2024-01-02'' 100.01, flatBar ''2024-01-03'' 100.008]"

definition thresholdSeries :: "StockData list" where
  "thresholdSeries = [flatBar ''2024-01-01'' 97.003, flatBar ''2024-01-02'' 100]"

definition shortSeries :: "StockData list" where
  "shortSeries = replicate 10 (flatBar ''2024-01-01'' 100)"

definition fullSeries :: "StockData list" where
  "fullSeries = replicate 15 (flatBar ''2024-01-01'' 100)"

section \<open>Decimal numerals\<close>

lemma digit_char_inj:
  assumes "a < 10" and "b < 10" and "digit_char a = digit_char b"
  shows "a = b"
proof -
  have a: "a \<in> {0, 1, 2, 3, 4, 5, 6, 7, 8, 9}" using assms(1) by auto
  have b: "b \<in> {0, 1, 2, 3, 4, 5, 6, 7, 8, 9}" using assms(2) by auto
  from a b assms(3) show ?thesis
    unfolding digit_char_def by (elim insertE emptyE) simp_all
qed

lemma string_of_nat_nonempty: "string_of_nat n \<noteq> []"
  by (subst string_of_nat.simps) simp

lemma string_of_nat_inj: "string_of_nat m = string_of_nat n \<Longrightarrow> m = n"
proof (induction m arbitrary: n rule: string_of_nat.induct)
  case (1 m)
  show ?case
  proof (cases "m < 10")
    case True
    note m = this
    show ?thesis
    proof (cases "n < 10")
      case True
      from "1.prems" have "digit_char m = digit_char n"
        by (subst (asm) string_of_nat.simps, subst (asm) (2) string_of_nat.simps)
           (simp add: m True)
      then show ?thesis using m True by (intro digit_char_inj)
    next
      case False
      from "1.prems" have "[digit_char m] = string_of_nat (n div 10) @ [digit_char (n mod 10)]"
        by (subst (asm) string_of_nat.simps, subst (asm) (2) string_of_nat.simps)
           (simp add: m False)
      then show ?thesis using string_of_nat_nonempty [of "n div 10"] by simp
    qed
  next
    case False
    note m = this
    show ?thesis
    proof (cases "n < 10")
      case True
      from "1.prems" have "string_of_nat (m div 10) @ [digit_char (m mod 10)] = [digit_char n]"
        by (subst (asm) string_of_nat.simps, subst (asm) (2) string_of_nat.simps)
           (simp add: m True)
      then show ?thesis using string_of_nat_nonempty [of "m div 10"] by simp
    next
      case False
      from "1.prems" have "string_of_nat (m div 10) @ [digit_char (m mod 10)]
          = string_of_nat (n div 10) @ [digit_char (n mod 10)]"
        by (subst (asm) string_of_nat.simps, subst (asm) (2) string_of_nat.simps)
           (simp add: m False)
      then have d: "string_of_nat (m div 10) = string_of_nat (n div 10)"
        and r: "digit_char (m mod 10) = digit_char (n mod 10)" by simp_all
      have "m div 10 = n div 10" using "1.IH" [OF m d] .
      moreover have "m mod 10 = n mod 10" using r by (intro digit_char_inj) simp_all
      ultimately show ?thesis by (metis div_mult_mod_eq)
    qed
  qed
qed

section \<open>Rounding to two decimals\<close>

lemma round_half_mono:
  fixes x y :: real
  assumes "x \<le> y"
  shows "real_of_int \<lfloor>x * 100 + 1 / 2\<rfloor> / 100 \<le> real_of_int \<lfloor>y * 100 + 1 / 2\<rfloor> / 100"
  using assms
  by (simp add: floor_mono divide_right_mono)

lemma round_half_nonneg:
  fixes x :: real
  shows "0 \<le> x \<Longrightarrow> 0 \<le> real_of_int \<lfloor>x * 100 + 1 / 2\<rfloor> / 100"
  by simp

lemma round_half_bound:
  fixes x :: real
  assumes "x < 10 ^ 21"
  shows "real_of_int \<lfloor>x * 100 + 1 / 2\<rfloor> / 100 \<le> 10 ^ 21"
proof -
  have "x * 100 + 1 / 2 < real_of_int (10 ^ 23 + 1)" using assms by simp
  then have "\<lfloor>x * 100 + 1 / 2\<rfloor> < 10 ^ 23 + 1" by (simp only: floor_less_iff)
  then have "\<lfloor>x * 100 + 1 / 2\<rfloor> \<le> 10 ^ 23" by simp
  then have "real_of_int \<lfloor>x * 100 + 1 / 2\<rfloor> \<le> real_of_int (10 ^ 23)" by (simp only: of_int_le_iff)
  then show ?thesis by simp
qed

lemma toFixed2_mono:
  assumes "x \<le> y"
  shows "toFixed2 x \<le> toFixed2 y"
proof -
  let ?r = "\<lambda>z::real. real_of_int \<lfloor>z * 100 + 1 / 2\<rfloor> / 100"
  consider (neg) "y < 0" | (mixed) "x < 0" "0 \<le> y" | (pos) "0 \<le> x" using assms by linarith
  then show ?thesis
  proof cases
    case neg
    then have xn: "x < 0" using assms by simp
    show ?thesis
    proof (cases "10 ^ 21 \<le> - x")
      case True
      note bigx = this
      show ?thesis
      proof (cases "10 ^ 21 \<le> - y")
        case True
        then show ?thesis using bigx neg xn assms by (simp add: toFixed2_def)
      next
        case False
        then have "?r (- y) \<le> 10 ^ 21" using round_half_bound [of "- y"] by simp
        then have "x \<le> - ?r (- y)" using bigx by linarith
        then show ?thesis using bigx neg xn False by (simp add: toFixed2_def)
      qed
    next
      case False
      then have sy: "\<not> 10 ^ 21 \<le> - y" using assms by linarith
      have "?r (- y) \<le> ?r (- x)" using assms round_half_mono [of "- y" "- x"] by simp
      then show ?thesis using False sy neg xn by (simp add: toFixed2_def)
    qed
  next
    case mixed
    have a: "toFixed2 x \<le> 0" using mixed(1) round_half_nonneg [of "- x"]
      by (simp add: toFixed2_def)
    have b: "0 \<le> toFixed2 y" using mixed(2) round_half_nonneg [of y]
      by (simp add: toFixed2_def)
    from a b show ?thesis by linarith
  next
    case pos
    then have yp: "0 \<le> y" using assms by simp
    show ?thesis
    proof (cases "10 ^ 21 \<le> y")
      case True
      note bigy = this
      show ?thesis
      proof (cases "10 ^ 21 \<le> x")
        case True
        then show ?thesis using bigy pos yp assms by (simp add: toFixed2_def)
      next
        case False
        then have "?r x \<le> 10 ^ 21" using round_half_bound [of x] by simp
        then have "?r x \<le> y" using bigy by linarith
        then show ?thesis using bigy pos yp False by (simp add: toFixed2_def)
      qed
    next
      case False
      then have sx: "\<not> 10 ^ 21 \<le> x" using assms by linarith
      have "?r x \<le> ?r y" using assms round_half_mono [of x y] by simp
      then show ?thesis using False sx pos yp by (simp add: toFixed2_def)
    qed
  qed
qed

lemma round_half_close:
  fixes x :: real
  shows "\<bar>real_of_int \<lfloor>x * 100 + 1 / 2\<rfloor> / 100 - x\<bar> \<le> 1 / 200"
proof -
  define n where "n = \<lfloor>x * 100 + 1 / 2\<rfloor>"
  have a: "real_of_int n \<le> x * 100 + 1 / 2" unfolding n_def by (rule of_int_floor_le)
  have b: "x * 100 + 1 / 2 < real_of_int n + 1" unfolding n_def by linarith
  have "\<bar>real_of_int n / 100 - x\<bar> \<le> 1 / 200" using a b by linarith
  then show ?thesis unfolding n_def .
qed

lemma toFixed2_close:
  assumes "\<bar>x\<bar> < 10 ^ 21"
  shows "\<bar>toFixed2 x - x\<bar> \<le> 1 / 200"
proof (cases "x < 0")
  case True
  have "\<bar>real_of_int \<lfloor>(- x) * 100 + 1 / 2\<rfloor> / 100 - (- x)\<bar> \<le> 1 / 200"
    by (rule round_half_close)
  then have "\<bar>- (real_of_int \<lfloor>(- x) * 100 + 1 / 2\<rfloor> / 100) - x\<bar> \<le> 1 / 200"
    by linarith
  moreover have "toFixed2 x = - (real_of_int \<lfloor>(- x) * 100 + 1 / 2\<rfloor> / 100)"
    using True assms unfolding toFixed2_def by simp
  ultimately show ?thesis by (simp only:)
next
  case False
  have "toFixed2 x = real_of_int \<lfloor>x * 100 + 1 / 2\<rfloor> / 100"
    using False assms unfolding toFixed2_def by simp
  then show ?thesis using round_half_close [of x] by (simp only:)
qed

lemma toFixed2_hundredths: "\<bar>x\<bar> < 10 ^ 21 \<Longrightarrow> \<exists>n::int. toFixed2 x = real_of_int n / 100"
proof (cases "x < 0")
  case True
  assume "\<bar>x\<bar> < 10 ^ 21"
  with True have "toFixed2 x = real_of_int (- \<lfloor>(- x) * 100 + 1 / 2\<rfloor>) / 100"
    by (simp add: toFixed2_def)
  then show ?thesis by blast
next
  case False
  assume "\<bar>x\<bar> < 10 ^ 21"
  with False have "toFixed2 x = real_of_int \<lfloor>x * 100 + 1 / 2\<rfloor> / 100"
    by (simp add: toFixed2_def)
  then show ?thesis by blast
qed

lemma round_half_exact:
  "real_of_int \<lfloor>real_of_int n / 100 * 100 + 1 / 2\<rfloor> / 100 = real_of_int n / 100"
proof -
  have "\<lfloor>real_of_int n + 1 / 2\<rfloor> = n" by (simp add: floor_unique)
  then show ?thesis by simp
qed

lemma toFixed2_exact: "toFixed2 (real_of_int n / 100) = real_of_int n / 100"
proof (cases "real_of_int n / 100 < 0")
  case True
  have "real_of_int \<lfloor>real_of_int (- n) / 100 * 100 + 1 / 2\<rfloor> / 100 = real_of_int (- n) / 100"
    by (rule round_half_exact)
  then show ?thesis using True by (simp add: toFixed2_def)
next
  case False
  then show ?thesis using round_half_exact [of n] by (simp add: toFixed2_def)
qed



section \<open>The loops of the ATR\<close>

lemma calculateTrueRange_pair:
  "calculateTrueRange (sd_high cur) (sd_low cur) (sd_close prev) = trueRangeOfPair prev cur"
  by (simp add: calculateTrueRange_def trueRangeOfPair_def Let_def max.assoc)

lemma trueRangesLoop_append:
  "trueRangesLoop data i trueRanges =
     trueRanges @ map (\<lambda>k. trueRangeOfPair (data ! (k - 1)) (data ! k)) [i..<length data]"
proof (induction data i trueRanges rule: trueRangesLoop.induct)
  case (1 data i trueRanges)
  show ?case
  proof (cases "i < length data")
    case True
    then have "trueRangesLoop data i trueRanges =
        trueRangesLoop data (i + 1) (trueRanges @ [trueRangeOfPair (data ! (i - 1)) (data ! i)])"
      by (subst trueRangesLoop.simps) (simp add: calculateTrueRange_pair)
    also have "\<dots> = (trueRanges @ [trueRangeOfPair (data ! (i - 1)) (data ! i)])
        @ map (\<lambda>k. trueRangeOfPair (data ! (k - 1)) (data ! k)) [i + 1..<length data]"
      using "1.IH" [OF True] by (simp add: calculateTrueRange_pair)
    finally show ?thesis using True by (simp add: upt_conv_Cons)
  next
    case False
    then show ?thesis by (subst trueRangesLoop.simps) simp
  qed
qed

lemma adjacent_pairs_map:
  "map (\<lambda>k. f (data ! (k - 1)) (data ! k)) [1..<length data]
     = map (\<lambda>(prev, cur). f prev cur) (zip data (tl data))"
  by (rule nth_equalityI) (auto simp add: nth_tl)

lemma trueRangesLoop_reference: "trueRangesLoop data 1 [] = referenceTrueRanges data"
  unfolding referenceTrueRanges_def trueRangesLoop_append
  using adjacent_pairs_map [of trueRangeOfPair data] by simp

lemma length_referenceTrueRanges: "length (referenceTrueRanges data) = length data - 1"
  by (simp add: referenceTrueRanges_def)

lemma smoothLoop_foldl:
  "smoothLoop trueRanges period i atr = foldl (wilderStep period) atr (drop i trueRanges)"
proof (induction trueRanges period i atr rule: smoothLoop.induct)
  case (1 trueRanges period i atr)
  show ?case
  proof (cases "i < length trueRanges")
    case True
    have e: "(atr * (real period - 1) + trueRanges ! i) / real period
        = wilderStep period atr (trueRanges ! i)"
      by (simp add: wilderStep_def)
    have "smoothLoop trueRanges period i atr =
        smoothLoop trueRanges period (i + 1) (wilderStep period atr (trueRanges ! i))"
      using True by (subst smoothLoop.simps) (simp only: e if_True)
    also have "\<dots> = foldl (wilderStep period) (wilderStep period atr (trueRanges ! i))
        (drop (i + 1) trueRanges)"
      using "1.IH" [OF True] by (simp only: e)
    also have "\<dots> = foldl (wilderStep period) atr (trueRanges ! i # drop (i + 1) trueRanges)"
      by simp
    also have "trueRanges ! i # drop (i + 1) trueRanges = drop i trueRanges"
      using True by (simp add: Cons_nth_drop_Suc)
    finally show ?thesis .
  next
    case False
    then show ?thesis by (subst smoothLoop.simps) simp
  qed
qed

lemma foldl_plus_sum_list: "foldl (\<lambda>sum tr. sum + tr) a xs = a + sum_list xs" for a :: real
  by (induction xs arbitrary: a) simp_all

lemma calculateATR_valid:
  assumes "period + 1 \<le> length data"
  shows "calculateATR data period = Inr (referenceATR data period)"
  unfolding calculateATR_def referenceATR_def Let_def trueRangesLoop_reference
    smoothLoop_foldl foldl_plus_sum_list
  using assms by simp

section \<open>The trailing loop\<close>

lemma trailingStep_first:
  "trailingStep True price (price - multiplier * atr) (price + multiplier * atr) previousStop trend
     = initialState multiplier atr price"
  by (simp add: trailingStep_def initialState_def)

lemma trailingStep_later:
  "trailingStep False price (price - multiplier * atr) (price + multiplier * atr) previousStop trend
     = nextState multiplier atr (previousStop, trend) price"
  by (cases trend) (simp_all add: trailingStep_def Let_def)

lemma trailingLoop_unfold:
  assumes "i < length data"
    and "s = trailingStep (i = atrPeriod) (sd_close (data ! i))
               (sd_close (data ! i) - multiplier * atr) (sd_close (data ! i) + multiplier * atr)
               previousStop trend"
  shows "trailingLoop data atrPeriod multiplier atr i previousStop trend results =
     trailingLoop data atrPeriod multiplier atr (i + 1) (fst s) (snd s)
       (results @ [trailingPoint atr (data ! i) s])"
  using assms
  by (subst trailingLoop.simps)
     (simp add: Let_def trailingPoint_def distancePercentage_def split: prod.splits)

lemma trailingLoop_exit:
  "\<not> i < length data \<Longrightarrow>
     trailingLoop data atrPeriod multiplier atr i previousStop trend results = results"
  by (subst trailingLoop.simps) simp

lemma trailingLoop_later:
  assumes "atrPeriod < i"
  shows "trailingLoop data atrPeriod multiplier atr i previousStop trend results =
     results @ map2 (trailingPoint atr) (drop i data)
       (statesFrom multiplier atr (previousStop, trend) (map sd_close (drop i data)))"
  using assms
proof (induction "length data - i" arbitrary: i previousStop trend results)
  case 0
  then have "\<not> i < length data" by simp
  then show ?case by (simp add: trailingLoop_exit)
next
  case (Suc n)
  then have lt: "i < length data" by simp
  define s where "s = nextState multiplier atr (previousStop, trend) (sd_close (data ! i))"
  have ne: "(i = atrPeriod) = False" using Suc.prems by simp
  have s_step: "s = trailingStep (i = atrPeriod) (sd_close (data ! i))
               (sd_close (data ! i) - multiplier * atr) (sd_close (data ! i) + multiplier * atr)
               previousStop trend"
    unfolding ne s_def by (simp only: trailingStep_later)
  have dr: "drop i data = data ! i # drop (i + 1) data"
    using lt by (simp add: Cons_nth_drop_Suc)
  have "trailingLoop data atrPeriod multiplier atr i previousStop trend results =
     trailingLoop data atrPeriod multiplier atr (i + 1) (fst s) (snd s)
       (results @ [trailingPoint atr (data ! i) s])"
    by (rule trailingLoop_unfold [OF lt s_step])
  also have "\<dots> = (results @ [trailingPoint atr (data ! i) s])
      @ map2 (trailingPoint atr) (drop (i + 1) data)
          (statesFrom multiplier atr (fst s, snd s) (map sd_close (drop (i + 1) data)))"
    using Suc.hyps(2) Suc.prems by (intro Suc.hyps(1)) simp_all
  finally show ?case unfolding dr by (simp add: s_def)
qed

lemma trailingLoop_reference:
  assumes "atrPeriod < length data"
  shows "trailingLoop data atrPeriod multiplier atr atrPeriod previousStop trend [] =
     map2 (trailingPoint atr) (drop atrPeriod data)
       (referenceStates multiplier atr (map sd_close (drop atrPeriod data)))"
proof -
  define s where "s = initialState multiplier atr (sd_close (data ! atrPeriod))"
  have s_step: "s = trailingStep (atrPeriod = atrPeriod) (sd_close (data ! atrPeriod))
               (sd_close (data ! atrPeriod) - multiplier * atr)
               (sd_close (data ! atrPeriod) + multiplier * atr) previousStop trend"
    unfolding s_def by (simp add: trailingStep_first)
  have dr: "drop atrPeriod data = data ! atrPeriod # drop (atrPeriod + 1) data"
    using assms by (simp add: Cons_nth_drop_Suc)
  have "trailingLoop data atrPeriod multiplier atr atrPeriod previousStop trend [] =
     trailingLoop data atrPeriod multiplier atr (atrPeriod + 1) (fst s) (snd s)
       ([] @ [trailingPoint atr (data ! atrPeriod) s])"
    by (rule trailingLoop_unfold [OF assms s_step])
  also have "\<dots> = ([] @ [trailingPoint atr (data ! atrPeriod) s])
      @ map2 (trailingPoint atr) (drop (atrPeriod + 1) data)
          (statesFrom multiplier atr (fst s, snd s) (map sd_close (drop (atrPeriod + 1) data)))"
    by (rule trailingLoop_later) simp
  finally show ?thesis unfolding dr by (simp add: s_def referenceStates_def)
qed

lemma length_statesFrom: "length (statesFrom multiplier atr s prices) = length prices"
  by (induction prices arbitrary: s) simp_all

lemma length_referenceStates: "length (referenceStates multiplier atr prices) = length prices"
  by (simp add: referenceStates_def length_statesFrom split: list.splits)

lemma trailing_valid:
  assumes "atrPeriod + 1 \<le> length data"
  shows "calculateVolatilityStopTrailing data atrPeriod multiplier =
     Inr (map2 (trailingPoint (referenceATR data atrPeriod)) (drop atrPeriod data)
       (referenceStates multiplier (referenceATR data atrPeriod)
          (map sd_close (drop atrPeriod data))))"
proof -
  have lt: "atrPeriod < length data" using assms by simp
  show ?thesis
    unfolding calculateVolatilityStopTrailing_def calculateATR_valid [OF assms]
    using assms by (simp add: trailingLoop_reference [OF lt])
qed



lemma referenceStates_0:
  "prices \<noteq> [] \<Longrightarrow> referenceStates multiplier atr prices ! 0 = initialState multiplier atr (prices ! 0)"
  by (cases prices) (simp_all add: referenceStates_def)

lemma statesFrom_Suc:
  "k < length prices \<Longrightarrow>
     (s # statesFrom multiplier atr s prices) ! Suc k
       = nextState multiplier atr ((s # statesFrom multiplier atr s prices) ! k) (prices ! k)"
proof (induction prices arbitrary: s k)
  case Nil
  then show ?case by simp
next
  case (Cons p ps)
  show ?case
  proof (cases k)
    case 0
    then show ?thesis by simp
  next
    case (Suc j)
    then have "j < length ps" using Cons.prems by simp
    from Cons.IH [OF this, of "nextState multiplier atr s p"] show ?thesis
      using Suc by simp
  qed
qed

lemma referenceStates_Suc:
  assumes "Suc k < length prices"
  shows "referenceStates multiplier atr prices ! Suc k
       = nextState multiplier atr (referenceStates multiplier atr prices ! k) (prices ! Suc k)"
proof (cases prices)
  case Nil
  then show ?thesis using assms by simp
next
  case (Cons p ps)
  then have "k < length ps" using assms by simp
  from statesFrom_Suc [OF this, of "initialState multiplier atr p" multiplier atr]
  show ?thesis by (simp add: Cons referenceStates_def)
qed

lemma nextState_UP_UP:
  "snd s = UP \<Longrightarrow> snd (nextState multiplier atr s price) = UP
     \<Longrightarrow> fst s \<le> fst (nextState multiplier atr s price)"
  by (cases s) (auto split: if_splits)

lemma nextState_DOWN_DOWN:
  "snd s = DOWN \<Longrightarrow> snd (nextState multiplier atr s price) = DOWN
     \<Longrightarrow> fst (nextState multiplier atr s price) \<le> fst s"
  by (cases s) (auto split: if_splits)

lemma states_run_UP:
  assumes "j < length prices"
    and "\<forall>k. i \<le> k \<and> k \<le> j \<longrightarrow> snd (referenceStates multiplier atr prices ! k) = UP"
    and "i \<le> j"
  shows "fst (referenceStates multiplier atr prices ! i) \<le> fst (referenceStates multiplier atr prices ! j)"
  using assms
proof (induction j)
  case 0
  then show ?case by simp
next
  case (Suc j)
  show ?case
  proof (cases "i = Suc j")
    case True
    then show ?thesis by simp
  next
    case False
    then have ij: "i \<le> j" using Suc.prems by simp
    have a: "fst (referenceStates multiplier atr prices ! i) \<le> fst (referenceStates multiplier atr prices ! j)"
      using Suc.prems ij by (intro Suc.IH) auto
    have "snd (referenceStates multiplier atr prices ! j) = UP"
      and "snd (referenceStates multiplier atr prices ! Suc j) = UP"
      using Suc.prems ij by auto
    then have "fst (referenceStates multiplier atr prices ! j)
        \<le> fst (referenceStates multiplier atr prices ! Suc j)"
      using referenceStates_Suc [OF Suc.prems(1), of multiplier atr] nextState_UP_UP by metis
    with a show ?thesis by linarith
  qed
qed

lemma states_run_DOWN:
  assumes "j < length prices"
    and "\<forall>k. i \<le> k \<and> k \<le> j \<longrightarrow> snd (referenceStates multiplier atr prices ! k) = DOWN"
    and "i \<le> j"
  shows "fst (referenceStates multiplier atr prices ! j) \<le> fst (referenceStates multiplier atr prices ! i)"
  using assms
proof (induction j)
  case 0
  then show ?case by simp
next
  case (Suc j)
  show ?case
  proof (cases "i = Suc j")
    case True
    then show ?thesis by simp
  next
    case False
    then have ij: "i \<le> j" using Suc.prems by simp
    have a: "fst (referenceStates multiplier atr prices ! j) \<le> fst (referenceStates multiplier atr prices ! i)"
      using Suc.prems ij by (intro Suc.IH) auto
    have "snd (referenceStates multiplier atr prices ! j) = DOWN"
      and "snd (referenceStates multiplier atr prices ! Suc j) = DOWN"
      using Suc.prems ij by auto
    then have "fst (referenceStates multiplier atr prices ! Suc j)
        \<le> fst (referenceStates multiplier atr prices ! j)"
      using referenceStates_Suc [OF Suc.prems(1), of multiplier atr] nextState_DOWN_DOWN by metis
    with a show ?thesis by linarith
  qed
qed

lemma trailing_result_nth:
  assumes "calculateVolatilityStopTrailing data atrPeriod multiplier = Inr rs"
    and "k < length rs"
  shows "atrPeriod + 1 \<le> length data"
    and "length rs = length data - atrPeriod"
    and "rs ! k = trailingPoint (referenceATR data atrPeriod) (data ! (atrPeriod + k))
           (referenceStates multiplier (referenceATR data atrPeriod)
              (map sd_close (drop atrPeriod data)) ! k)"
proof -
  show v: "atrPeriod + 1 \<le> length data"
    using assms(1) by (auto simp add: calculateVolatilityStopTrailing_def split: if_splits)
  have rs: "rs = map2 (trailingPoint (referenceATR data atrPeriod)) (drop atrPeriod data)
       (referenceStates multiplier (referenceATR data atrPeriod)
          (map sd_close (drop atrPeriod data)))"
    using assms(1) trailing_valid [OF v, of multiplier] by simp
  show len: "length rs = length data - atrPeriod"
    unfolding rs by (simp add: length_referenceStates)
  show "rs ! k = trailingPoint (referenceATR data atrPeriod) (data ! (atrPeriod + k))
           (referenceStates multiplier (referenceATR data atrPeriod)
              (map sd_close (drop atrPeriod data)) ! k)"
    using assms(2) len unfolding rs by (simp add: length_referenceStates)
qed

section \<open>Evaluations on the example series\<close>

lemma reversalSeries_atr: "calculateATR reversalSeries 1 = Inr (1 / 2)"
  by code_simp

lemma reversalSeries_trailing:
  "calculateVolatilityStopTrailing reversalSeries 1 2 = Inr
     [\<lparr>vr_date = ''2024-01-02'', vr_close = 101, vr_atr = 1 / 2, vr_stopLoss = 100,
        vr_stopLossPercentage = 99 / 100, vr_trend = UP, vr_signal = BUY\<rparr>,
      \<lparr>vr_date = ''2024-01-03'', vr_close = 103, vr_atr = 1 / 2, vr_stopLoss = 102,
        vr_stopLossPercentage = 97 / 100, vr_trend = UP, vr_signal = BUY\<rparr>,
      \<lparr>vr_date = ''2024-01-04'', vr_close = 90, vr_atr = 1 / 2, vr_stopLoss = 91,
        vr_stopLossPercentage = 111 / 100, vr_trend = DOWN, vr_signal = SELL\<rparr>,
      \<lparr>vr_date = ''2024-01-05'', vr_close = 181 / 2, vr_atr = 1 / 2, vr_stopLoss = 91,
        vr_stopLossPercentage = 11 / 20, vr_trend = DOWN, vr_signal = SELL\<rparr>]"
  by code_simp

lemma reversalSeries_states:
  "referenceStates 2 (1 / 2) (map sd_close (drop 1 reversalSeries))
     = [(100, UP), (102, UP), (91, DOWN), (91, DOWN)]"
  by code_simp

lemma roundingSeries_atr: "calculateATR roundingSeries 1 = Inr (1 / 500)"
  by code_simp

lemma roundingSeries_trailing:
  "calculateVolatilityStopTrailing roundingSeries 1 2 = Inr
     [\<lparr>vr_date = ''2024-01-02'', vr_close = 10001 / 100, vr_atr = 0, vr_stopLoss = 10001 / 100,
        vr_stopLossPercentage = 0, vr_trend = UP, vr_signal = BUY\<rparr>,
      \<lparr>vr_date = ''2024-01-03'', vr_close = 10001 / 100, vr_atr = 0, vr_stopLoss = 10001 / 100,
        vr_stopLossPercentage = 0, vr_trend = UP, vr_signal = BUY\<rparr>]"
  by code_simp

lemma roundingSeries_states:
  "referenceStates 2 (1 / 500) (map sd_close (drop 1 roundingSeries))
     = [(100006 / 1000, UP), (100006 / 1000, UP)]"
  by code_simp

lemma thresholdSeries_atr: "calculateATR thresholdSeries 1 = Inr (2997 / 1000)"
  by code_simp

lemma thresholdSeries_trailing:
  "calculateVolatilityStopTrailing thresholdSeries 1 1 = Inr
     [\<lparr>vr_date = ''2024-01-02'', vr_close = 100, vr_atr = 3, vr_stopLoss = 97,
        vr_stopLossPercentage = 3, vr_trend = UP, vr_signal = BUY\<rparr>]"
  by code_simp

lemma thresholdSeries_states:
  "referenceStates 1 (2997 / 1000) (map sd_close (drop 1 thresholdSeries))
     = [(97003 / 1000, UP)]"
  by code_simp

section \<open>The claims\<close>

text \<open>
  C1. \<open>calculateATR\<close> throws exactly when the series has fewer than \<open>period + 1\<close>
  points and returns a number otherwise; \<open>calculateVolatilityStopTrailing\<close> throws
  exactly when the series has fewer than \<open>atrPeriod + 1\<close> points. The source throws a
  plain \<^verbatim>\<open>Error\<close>; it is the only error of the module.
\<close>

theorem insufficient_data_iff:
  "((\<exists>e. calculateATR data period = Inl e) \<longleftrightarrow> length data < period + 1)
   \<and> ((\<exists>atr. calculateATR data period = Inr atr) \<longleftrightarrow> \<not> length data < period + 1)
   \<and> ((\<exists>e. calculateVolatilityStopTrailing data period multiplier = Inl e)
        \<longleftrightarrow> length data < period + 1)"
  by (simp add: calculateATR_def calculateVolatilityStopTrailing_def Let_def)

theorem insufficient_data_iff_witness:
  "length shortSeries < 14 + 1
   \<and> (\<exists>e. calculateATR shortSeries 14 = Inl e)
   \<and> (\<exists>e. calculateVolatilityStopTrailing shortSeries 14 2 = Inl e)
   \<and> \<not> length fullSeries < 14 + 1
   \<and> (\<exists>atr. calculateATR fullSeries 14 = Inr atr)
   \<and> \<not> (\<exists>e. calculateVolatilityStopTrailing fullSeries 14 2 = Inl e)"
proof -
  have s: "length shortSeries < 14 + 1" by (simp add: shortSeries_def)
  have f: "\<not> length fullSeries < 14 + 1" by (simp add: fullSeries_def)
  from insufficient_data_iff [of shortSeries 14 2] insufficient_data_iff [of fullSeries 14 2] s f
  show ?thesis by blast
qed

text \<open>
  C2, as stated, fails: the stop returned for price 100, ATR 1.234 and multiplier 1 is
  98.77, and \<open>100 - 1.234 * 1\<close> is 98.766.
\<close>

theorem static_stop_is_rounded:
  "vs_stopLoss (calculateVolatilityStop 100 1.234 1) = 98.77
   \<and> 100 - 1.234 * 1 = (98.766 :: real)
   \<and> vs_stopLoss (calculateVolatilityStop 100 1.234 1) \<noteq> 100 - 1.234 * 1"
  by (simp add: calculateVolatilityStop_def toFixed2_def Let_def)

text \<open>
  C2, amended. \<open>calculateVolatilityStop\<close> returns the stop
  \<open>currentPrice - atr * multiplier\<close> and the percentage
  \<open>(currentPrice - stopLoss) / currentPrice * 100\<close>, each rounded to two decimals: at most
  0.005 away below \<open>10\<^sup>2\<^sup>1\<close>, and unchanged when the value is a whole number of
  hundredths. The recommendation is SELL when the percentage before rounding is above 10,
  BUY when it is below 3, HOLD otherwise.
\<close>

theorem calculateVolatilityStop_rounded:
  fixes currentPrice atr multiplier :: real
  defines "stop \<equiv> currentPrice - atr * multiplier"
  defines "pct \<equiv> (currentPrice - (currentPrice - atr * multiplier)) / currentPrice * 100"
  shows "calculateVolatilityStop currentPrice atr multiplier
      = \<lparr> vs_atr = toFixed2 atr, vs_stopLoss = toFixed2 stop, vs_stopLossPercentage = toFixed2 pct,
          vs_recommendation = (if pct > 10 then SELL else if pct < 3 then BUY else HOLD) \<rparr>
   \<and> (\<bar>stop\<bar> < 10 ^ 21 \<longrightarrow> \<bar>toFixed2 stop - stop\<bar> \<le> 1 / 200)
   \<and> (\<bar>pct\<bar> < 10 ^ 21 \<longrightarrow> \<bar>toFixed2 pct - pct\<bar> \<le> 1 / 200)
   \<and> ((\<exists>n::int. stop = real_of_int n / 100) \<longrightarrow> toFixed2 stop = stop)
   \<and> ((\<exists>n::int. pct = real_of_int n / 100) \<longrightarrow> toFixed2 pct = pct)"
proof (intro conjI impI)
  show "calculateVolatilityStop currentPrice atr multiplier
      = \<lparr> vs_atr = toFixed2 atr, vs_stopLoss = toFixed2 stop, vs_stopLossPercentage = toFixed2 pct,
          vs_recommendation = (if pct > 10 then SELL else if pct < 3 then BUY else HOLD) \<rparr>"
    unfolding stop_def pct_def calculateVolatilityStop_def Let_def by (rule refl)
next
  assume "\<bar>stop\<bar> < 10 ^ 21"
  then show "\<bar>toFixed2 stop - stop\<bar> \<le> 1 / 200" by (rule toFixed2_close)
next
  assume "\<bar>pct\<bar> < 10 ^ 21"
  then show "\<bar>toFixed2 pct - pct\<bar> \<le> 1 / 200" by (rule toFixed2_close)
next
  assume "\<exists>n::int. stop = real_of_int n / 100"
  then obtain n :: int where "stop = real_of_int n / 100" by blast
  then show "toFixed2 stop = stop" by (simp only: toFixed2_exact)
next
  assume "\<exists>n::int. pct = real_of_int n / 100"
  then obtain n :: int where "pct = real_of_int n / 100" by blast
  then show "toFixed2 pct = pct" by (simp only: toFixed2_exact)
qed

theorem calculateVolatilityStop_rounded_witness:
  "\<bar>100 - 5 * 2 :: real\<bar> < 10 ^ 21
   \<and> \<bar>(100 - (100 - 5 * 2)) / 100 * 100 :: real\<bar> < 10 ^ 21
   \<and> (\<exists>n::int. (100::real) - 5 * 2 = real_of_int n / 100)
   \<and> (\<exists>n::int. ((100::real) - (100 - 5 * 2)) / 100 * 100 = real_of_int n / 100)
   \<and> calculateVolatilityStop 100 5 2
      = \<lparr> vs_atr = 5, vs_stopLoss = 90, vs_stopLossPercentage = 10, vs_recommendation = HOLD \<rparr>"
proof -
  have "(100::real) - 5 * 2 = real_of_int 9000 / 100" by simp
  then have a: "\<exists>n::int. (100::real) - 5 * 2 = real_of_int n / 100" by (rule exI)
  have "((100::real) - (100 - 5 * 2)) / 100 * 100 = real_of_int 1000 / 100" by simp
  then have b: "\<exists>n::int. ((100::real) - (100 - 5 * 2)) / 100 * 100 = real_of_int n / 100"
    by (rule exI)
  have c: "toFixed2 5 = 5" by (simp add: toFixed2_def)
  have d: "\<bar>100 - 5 * 2 :: real\<bar> < 10 ^ 21" "\<bar>(100 - (100 - 5 * 2)) / 100 * 100 :: real\<bar> < 10 ^ 21"
    by simp_all
  note inst = calculateVolatilityStop_rounded [of 100 5 2]
  have e: "toFixed2 (100 - 5 * 2) = 100 - 5 * 2"
    using inst [THEN conjunct2, THEN conjunct2, THEN conjunct2, THEN conjunct1, THEN mp, OF a] .
  have f: "toFixed2 ((100 - (100 - 5 * 2)) / 100 * 100) = (100 - (100 - 5 * 2)) / 100 * 100"
    using inst [THEN conjunct2, THEN conjunct2, THEN conjunct2, THEN conjunct2, THEN mp, OF b] .
  have "calculateVolatilityStop 100 5 2
      = \<lparr> vs_atr = 5, vs_stopLoss = 90, vs_stopLossPercentage = 10, vs_recommendation = HOLD \<rparr>"
    using inst [THEN conjunct1] unfolding e f c by simp
  with a b d show ?thesis by (intro conjI)
qed

text \<open>
  C3. On a series of at least \<open>period + 1\<close> points \<open>calculateATR\<close> returns the reference
  fold: the true range of every adjacent pair, the mean of the first \<open>period\<close> of them
  as the seed, and Wilder's smoothing over the rest.
\<close>

theorem calculateATR_is_reference_fold:
  assumes "period + 1 \<le> length data"
  shows "calculateATR data period = Inr (referenceATR data period)"
  by (rule calculateATR_valid [OF assms])

theorem calculateATR_is_reference_fold_witness:
  "2 + 1 \<le> length reversalSeries
   \<and> calculateATR reversalSeries 2 = Inr (referenceATR reversalSeries 2)
   \<and> referenceTrueRanges reversalSeries = [1, 2, 13, 1 / 2]
   \<and> referenceATR reversalSeries 2 = 31 / 8"
proof -
  have len: "2 + 1 \<le> length reversalSeries" by (simp add: reversalSeries_def)
  have trs: "referenceTrueRanges reversalSeries = [1, 2, 13, 1 / 2]"
    by (simp add: referenceTrueRanges_def trueRangeOfPair_def reversalSeries_def flatBar_def)
  have val: "referenceATR reversalSeries 2 = 31 / 8"
    by (simp add: referenceATR_def trs wilderStep_def)
  from len trs val calculateATR_is_reference_fold [OF len] show ?thesis by (intro conjI)
qed

text \<open>
  C4. For every valid series, the trailing computation is the stated fold. The stop of
  the claim is the loop's own \<^verbatim>\<open>stopLoss\<close> and \<^verbatim>\<open>previousStop\<close>; the point returned
  for each state carries the state's trend and the state's stop through \<open>toFixed2\<close>.
\<close>

theorem trailing_is_reference_fold:
  assumes "atrPeriod + 1 \<le> length data"
  shows "\<exists>atr rs. calculateATR data atrPeriod = Inr atr
     \<and> calculateVolatilityStopTrailing data atrPeriod multiplier = Inr rs
     \<and> map vr_trend rs
         = map snd (referenceStates multiplier atr (map sd_close (drop atrPeriod data)))
     \<and> map vr_stopLoss rs
         = map (\<lambda>s. toFixed2 (fst s))
             (referenceStates multiplier atr (map sd_close (drop atrPeriod data)))"
proof -
  let ?atr = "referenceATR data atrPeriod"
  let ?states = "referenceStates multiplier ?atr (map sd_close (drop atrPeriod data))"
  let ?rs = "map2 (trailingPoint ?atr) (drop atrPeriod data) ?states"
  have len: "length ?states = length (drop atrPeriod data)"
    by (simp add: length_referenceStates)
  have t: "map vr_trend ?rs = map snd ?states"
    using len by (intro nth_equalityI) (simp_all add: trailingPoint_def)
  have s: "map vr_stopLoss ?rs = map (\<lambda>s. toFixed2 (fst s)) ?states"
    using len by (intro nth_equalityI) (simp_all add: trailingPoint_def)
  from calculateATR_valid [OF assms] trailing_valid [OF assms, of multiplier] t s
  show ?thesis by blast
qed

theorem trailing_is_reference_fold_witness:
  "1 + 1 \<le> length reversalSeries
   \<and> (\<exists>rs. calculateVolatilityStopTrailing reversalSeries 1 2 = Inr rs
        \<and> map vr_trend rs = [UP, UP, DOWN, DOWN]
        \<and> map vr_stopLoss rs = [100, 102, 91, 91])"
proof -
  have len: "1 + 1 \<le> length reversalSeries" by (simp add: reversalSeries_def)
  have r: "toFixed2 100 = 100" "toFixed2 102 = 102" "toFixed2 91 = 91"
    by (simp_all add: toFixed2_def)
  from trailing_is_reference_fold [OF len, of 2] obtain atr rs where
    a: "calculateATR reversalSeries 1 = Inr atr"
    and b: "calculateVolatilityStopTrailing reversalSeries 1 2 = Inr rs"
    and c: "map vr_trend rs
         = map snd (referenceStates 2 atr (map sd_close (drop 1 reversalSeries)))"
    and d: "map vr_stopLoss rs
         = map (\<lambda>s. toFixed2 (fst s))
             (referenceStates 2 atr (map sd_close (drop 1 reversalSeries)))"
    by blast
  from a have atr: "atr = 1 / 2" unfolding reversalSeries_atr by simp
  from c d have "map vr_trend rs = [UP, UP, DOWN, DOWN]" "map vr_stopLoss rs = [100, 102, 91, 91]"
    unfolding atr reversalSeries_states by (simp_all add: r)
  with len b show ?thesis by (intro conjI exI [of _ rs])
qed

text \<open>
  C5. Where consecutive returned points all have trend UP their stops do not decrease,
  and where they all have trend DOWN their stops do not increase.
\<close>

theorem stops_monotone_within_trend_run:
  assumes "calculateVolatilityStopTrailing data atrPeriod multiplier = Inr rs"
    and "i \<le> j" and "j < length rs"
  shows "((\<forall>k. i \<le> k \<and> k \<le> j \<longrightarrow> vr_trend (rs ! k) = UP)
            \<longrightarrow> vr_stopLoss (rs ! i) \<le> vr_stopLoss (rs ! j))
       \<and> ((\<forall>k. i \<le> k \<and> k \<le> j \<longrightarrow> vr_trend (rs ! k) = DOWN)
            \<longrightarrow> vr_stopLoss (rs ! j) \<le> vr_stopLoss (rs ! i))"
proof -
  let ?atr = "referenceATR data atrPeriod"
  let ?prices = "map sd_close (drop atrPeriod data)"
  let ?states = "referenceStates multiplier ?atr ?prices"
  have len: "length rs = length data - atrPeriod"
    using trailing_result_nth(2) [OF assms(1) assms(3)] .
  have pt: "vr_trend (rs ! k) = snd (?states ! k) \<and> vr_stopLoss (rs ! k) = toFixed2 (fst (?states ! k))"
    if "k < length rs" for k
    using trailing_result_nth(3) [OF assms(1) that] by (simp add: trailingPoint_def)
  have jl: "j < length ?prices" using assms(3) len by simp
  have il: "i < length rs" using assms(2,3) by simp
  show ?thesis
  proof (intro conjI impI)
    assume up: "\<forall>k. i \<le> k \<and> k \<le> j \<longrightarrow> vr_trend (rs ! k) = UP"
    have "\<forall>k. i \<le> k \<and> k \<le> j \<longrightarrow> snd (?states ! k) = UP"
      using up pt assms(3) by auto
    from states_run_UP [OF jl this assms(2)]
    have "toFixed2 (fst (?states ! i)) \<le> toFixed2 (fst (?states ! j))"
      by (rule toFixed2_mono)
    then show "vr_stopLoss (rs ! i) \<le> vr_stopLoss (rs ! j)"
      using pt [OF il] pt [OF assms(3)] by simp
  next
    assume down: "\<forall>k. i \<le> k \<and> k \<le> j \<longrightarrow> vr_trend (rs ! k) = DOWN"
    have "\<forall>k. i \<le> k \<and> k \<le> j \<longrightarrow> snd (?states ! k) = DOWN"
      using down pt assms(3) by auto
    from states_run_DOWN [OF jl this assms(2)]
    have "toFixed2 (fst (?states ! j)) \<le> toFixed2 (fst (?states ! i))"
      by (rule toFixed2_mono)
    then show "vr_stopLoss (rs ! j) \<le> vr_stopLoss (rs ! i)"
      using pt [OF il] pt [OF assms(3)] by simp
  qed
qed


theorem stops_monotone_within_trend_run_witness:
  "\<exists>rs. calculateVolatilityStopTrailing reversalSeries 1 2 = Inr rs
     \<and> 3 < length rs
     \<and> (\<forall>k. 0 \<le> k \<and> k \<le> 1 \<longrightarrow> vr_trend (rs ! k) = UP)
     \<and> vr_stopLoss (rs ! 0) \<le> vr_stopLoss (rs ! 1)
     \<and> (\<forall>k. 2 \<le> k \<and> k \<le> 3 \<longrightarrow> vr_trend (rs ! k) = DOWN)
     \<and> vr_stopLoss (rs ! 3) \<le> vr_stopLoss (rs ! 2)
     \<and> vr_stopLoss (rs ! 2) < vr_stopLoss (rs ! 1)"
proof -
  obtain rs where ev: "calculateVolatilityStopTrailing reversalSeries 1 2 = Inr rs"
    and rs: "rs =
     [\<lparr>vr_date = ''2024-01-02'', vr_close = 101, vr_atr = 1 / 2, vr_stopLoss = 100,
        vr_stopLossPercentage = 99 / 100, vr_trend = UP, vr_signal = BUY\<rparr>,
      \<lparr>vr_date = ''2024-01-03'', vr_close = 103, vr_atr = 1 / 2, vr_stopLoss = 102,
        vr_stopLossPercentage = 97 / 100, vr_trend = UP, vr_signal = BUY\<rparr>,
      \<lparr>vr_date = ''2024-01-04'', vr_close = 90, vr_atr = 1 / 2, vr_stopLoss = 91,
        vr_stopLossPercentage = 111 / 100, vr_trend = DOWN, vr_signal = SELL\<rparr>,
      \<lparr>vr_date = ''2024-01-05'', vr_close = 181 / 2, vr_atr = 1 / 2, vr_stopLoss = 91,
        vr_stopLossPercentage = 11 / 20, vr_trend = DOWN, vr_signal = SELL\<rparr>]"
    using reversalSeries_trailing by blast
  have len: "3 < length rs" "1 < length rs" by (simp_all add: rs)
  have up: "\<forall>k. 0 \<le> k \<and> k \<le> 1 \<longrightarrow> vr_trend (rs ! k) = UP"
    by (auto simp add: rs le_Suc_eq)
  have down: "\<forall>k. 2 \<le> k \<and> k \<le> 3 \<longrightarrow> vr_trend (rs ! k) = DOWN"
  proof (intro allI impI)
    fix k :: nat
    assume "2 \<le> k \<and> k \<le> 3"
    then have "k = 2 \<or> k = 3" by auto
    then show "vr_trend (rs ! k) = DOWN" by (auto simp add: rs)
  qed
  have a: "vr_stopLoss (rs ! 0) \<le> vr_stopLoss (rs ! 1)"
    using stops_monotone_within_trend_run [OF ev, of 0 1] up len by simp
  have b: "vr_stopLoss (rs ! 3) \<le> vr_stopLoss (rs ! 2)"
    using stops_monotone_within_trend_run [OF ev, of 2 3] down len by simp
  have c: "vr_stopLoss (rs ! 2) < vr_stopLoss (rs ! 1)" by (simp add: rs)
  from ev len(1) up a down b c show ?thesis by (intro exI [of _ rs] conjI)
qed

text \<open>
  C6. On a series of \<open>n \<ge> atrPeriod + 1\<close> points the result has \<open>n - atrPeriod\<close> points,
  and their dates are the dates of the input points from index \<open>atrPeriod\<close> on, in order.
\<close>

theorem trailing_length_and_dates:
  assumes "atrPeriod + 1 \<le> length data"
  shows "\<exists>rs. calculateVolatilityStopTrailing data atrPeriod multiplier = Inr rs
     \<and> length rs = length data - atrPeriod
     \<and> map vr_date rs = map sd_date (drop atrPeriod data)"
proof -
  let ?atr = "referenceATR data atrPeriod"
  let ?states = "referenceStates multiplier ?atr (map sd_close (drop atrPeriod data))"
  have len: "length ?states = length (drop atrPeriod data)"
    by (simp add: length_referenceStates)
  have "map vr_date (map2 (trailingPoint ?atr) (drop atrPeriod data) ?states)
      = map sd_date (drop atrPeriod data)"
    using len by (intro nth_equalityI) (simp_all add: trailingPoint_def)
  moreover have "length (map2 (trailingPoint ?atr) (drop atrPeriod data) ?states)
      = length data - atrPeriod"
    using len by simp
  ultimately show ?thesis using trailing_valid [OF assms, of multiplier] by blast
qed

theorem trailing_length_and_dates_witness:
  "1 + 1 \<le> length reversalSeries
   \<and> (\<exists>rs. calculateVolatilityStopTrailing reversalSeries 1 2 = Inr rs
     \<and> length rs = 4
     \<and> map vr_date rs = [''2024-01-02'', ''2024-01-03'', ''2024-01-04'', ''2024-01-05''])"
proof -
  have len: "1 + 1 \<le> length reversalSeries" by (simp add: reversalSeries_def)
  from trailing_length_and_dates [OF len, of 2] len show ?thesis
    by (auto simp add: reversalSeries_def flatBar_def)
qed

text \<open>
  C7, as stated, fails: the error is a message that names the required length only. A
  series of 10 points and a series of 3 points raise the same error for period 14.
\<close>

theorem error_omits_actual_length:
  "calculateATR (replicate 10 (flatBar ''2024-01-01'' 100)) 14
      = Inl (Error ''Need at least 15 data points to calculate ATR'')
   \<and> calculateATR (replicate 3 (flatBar ''2024-01-01'' 100)) 14
      = calculateATR (replicate 10 (flatBar ''2024-01-01'' 100)) 14"
  by (simp add: calculateATR_def string_of_nat.simps digit_char_def)

text \<open>
  C7, amended. On a series shorter than \<open>period + 1\<close> the error raised by
  \<open>calculateATR\<close> is the message \<^verbatim>\<open>Need at least N data points to calculate ATR\<close> with
  \<open>N = period + 1\<close> in decimal, whatever the length of the series: the error determines
  the required length, and nothing else.
\<close>

theorem error_names_required_length:
  assumes "length data < period + 1"
  shows "calculateATR data period =
      Inl (Error (''Need at least '' @ string_of_nat (period + 1)
                  @ '' data points to calculate ATR''))
    \<and> (\<forall>data'. length data' < period + 1
          \<longrightarrow> calculateATR data' period = calculateATR data period)
    \<and> (\<forall>data' period'. calculateATR data' period' = calculateATR data period
          \<longrightarrow> period' = period)"
proof (intro conjI allI impI)
  show e: "calculateATR data period =
      Inl (Error (''Need at least '' @ string_of_nat (period + 1)
                  @ '' data points to calculate ATR''))"
    using assms by (simp add: calculateATR_def)
  show "calculateATR data' period = calculateATR data period"
    if "length data' < period + 1" for data'
    using that unfolding e by (simp add: calculateATR_def)
  show "period' = period"
    if "calculateATR data' period' = calculateATR data period" for data' period'
  proof -
    from that have "string_of_nat (period' + 1) = string_of_nat (period + 1)"
      unfolding e by (simp add: calculateATR_def Let_def split: if_splits)
    then have "period' + 1 = period + 1" by (rule string_of_nat_inj)
    then show ?thesis by simp
  qed
qed

theorem error_names_required_length_witness:
  "length shortSeries < 14 + 1
   \<and> calculateATR shortSeries 14 = Inl (Error ''Need at least 15 data points to calculate ATR'')
   \<and> length (replicate 3 (flatBar ''2024-01-01'' 100)) < 14 + 1
   \<and> calculateATR (replicate 3 (flatBar ''2024-01-01'' 100)) 14 = calculateATR shortSeries 14"
proof -
  have len: "length shortSeries < 14 + 1" by (simp add: shortSeries_def)
  have len3: "length (replicate 3 (flatBar ''2024-01-01'' 100)) < 14 + 1" by simp
  note inst = error_names_required_length [OF len]
  have msg: "calculateATR shortSeries 14
      = Inl (Error ''Need at least 15 data points to calculate ATR'')"
    using inst [THEN conjunct1] by (simp add: string_of_nat.simps digit_char_def)
  have same: "calculateATR (replicate 3 (flatBar ''2024-01-01'' 100)) 14
      = calculateATR shortSeries 14"
    using inst [THEN conjunct2, THEN conjunct1, rule_format, OF len3] .
  from len msg len3 same show ?thesis by (intro conjI)
qed

text \<open>
  C8, as stated, fails: the closes 100, 101, 103 have the true ranges 1 and 2, and with
  period 2 the series and its reversal have the same ATR.
\<close>

theorem reversal_keeps_atr:
  "2 + 1 \<le> length risingSeries
   \<and> trueRangesLoop risingSeries 1 [] = [1, 2]
   \<and> trueRangesLoop (rev risingSeries) 1 [] = [2, 1]
   \<and> calculateATR risingSeries 2 = Inr (3 / 2)
   \<and> calculateATR (rev risingSeries) 2 = calculateATR risingSeries 2"
  by code_simp

text \<open>
  C8, amended. Reversing a valid series can change the ATR: the same closes with
  period 1 give 2, and reversed they give 1.
\<close>

theorem reversal_can_change_atr:
  "1 + 1 \<le> length risingSeries
   \<and> trueRangesLoop risingSeries 1 [] = [1, 2]
   \<and> calculateATR risingSeries 1 = Inr 2
   \<and> calculateATR (rev risingSeries) 1 = Inr 1
   \<and> calculateATR (rev risingSeries) 1 \<noteq> calculateATR risingSeries 1"
  by code_simp

text \<open>
  C9. Every numeric field of the outputs is the corresponding value passed through
  \<open>toFixed2\<close>, which below \<open>10\<^sup>2\<^sup>1\<close> returns a whole number of hundredths at most half
  a hundredth away. The recommendation of the static stop compares the percentage
  before rounding with 10 and 3. In the trailing sequence the stop and the trend are
  those of the fold over the stops before rounding, and the signal compares the input
  close with the stop before rounding and the distance percentage before rounding
  with 3.
\<close>

theorem outputs_rounded_decisions_unrounded:
  "(calculateVolatilityStop currentPrice a m =
      \<lparr> vs_atr = toFixed2 a,
        vs_stopLoss = toFixed2 (currentPrice - a * m),
        vs_stopLossPercentage = toFixed2 ((currentPrice - (currentPrice - a * m)) / currentPrice * 100),
        vs_recommendation =
          (if (currentPrice - (currentPrice - a * m)) / currentPrice * 100 > 10 then SELL
           else if (currentPrice - (currentPrice - a * m)) / currentPrice * 100 < 3 then BUY
           else HOLD) \<rparr>)
   \<and> (calculateVolatilityStopTrailing data atrPeriod multiplier = Inr rs
        \<and> calculateATR data atrPeriod = Inr atr \<and> k < length rs
        \<and> price = sd_close (data ! (atrPeriod + k))
        \<and> s = referenceStates multiplier atr (map sd_close (drop atrPeriod data)) ! k
        \<and> pct = \<bar>((price - fst s) / price) * 100\<bar>
      \<longrightarrow> rs ! k =
            \<lparr> vr_date = sd_date (data ! (atrPeriod + k)),
              vr_close = toFixed2 price,
              vr_atr = toFixed2 atr,
              vr_stopLoss = toFixed2 (fst s),
              vr_stopLossPercentage = toFixed2 pct,
              vr_trend = snd s,
              vr_signal =
                (if snd s = UP \<and> price > fst s then (if pct < 3 then BUY else HOLD)
                 else if snd s = DOWN \<and> price < fst s then (if pct < 3 then SELL else HOLD)
                 else HOLD) \<rparr>)
   \<and> (\<bar>x\<bar> < 10 ^ 21 \<longrightarrow>
        (\<exists>n::int. toFixed2 x = real_of_int n / 100) \<and> \<bar>toFixed2 x - x\<bar> \<le> 1 / 200)"
proof (intro conjI impI)
  show "calculateVolatilityStop currentPrice a m =
      \<lparr> vs_atr = toFixed2 a,
        vs_stopLoss = toFixed2 (currentPrice - a * m),
        vs_stopLossPercentage = toFixed2 ((currentPrice - (currentPrice - a * m)) / currentPrice * 100),
        vs_recommendation =
          (if (currentPrice - (currentPrice - a * m)) / currentPrice * 100 > 10 then SELL
           else if (currentPrice - (currentPrice - a * m)) / currentPrice * 100 < 3 then BUY
           else HOLD) \<rparr>"
    unfolding calculateVolatilityStop_def Let_def by (rule refl)
next
  assume h: "calculateVolatilityStopTrailing data atrPeriod multiplier = Inr rs
        \<and> calculateATR data atrPeriod = Inr atr \<and> k < length rs
        \<and> price = sd_close (data ! (atrPeriod + k))
        \<and> s = referenceStates multiplier atr (map sd_close (drop atrPeriod data)) ! k
        \<and> pct = \<bar>((price - fst s) / price) * 100\<bar>"
  then have ev: "calculateVolatilityStopTrailing data atrPeriod multiplier = Inr rs"
    and k: "k < length rs" by simp_all
  have valid: "atrPeriod + 1 \<le> length data"
    using trailing_result_nth(1) [OF ev k] .
  have atr: "atr = referenceATR data atrPeriod"
    using h calculateATR_valid [OF valid] by simp
  have "rs ! k = trailingPoint atr (data ! (atrPeriod + k)) s"
    unfolding atr using trailing_result_nth(3) [OF ev k] h atr by simp
  then show "rs ! k =
            \<lparr> vr_date = sd_date (data ! (atrPeriod + k)),
              vr_close = toFixed2 price,
              vr_atr = toFixed2 atr,
              vr_stopLoss = toFixed2 (fst s),
              vr_stopLossPercentage = toFixed2 pct,
              vr_trend = snd s,
              vr_signal =
                (if snd s = UP \<and> price > fst s then (if pct < 3 then BUY else HOLD)
                 else if snd s = DOWN \<and> price < fst s then (if pct < 3 then SELL else HOLD)
                 else HOLD) \<rparr>"
    using h by (simp add: trailingPoint_def trailingSignal_def distancePercentage_def)
next
  assume "\<bar>x\<bar> < 10 ^ 21"
  then show "\<exists>n::int. toFixed2 x = real_of_int n / 100" by (rule toFixed2_hundredths)
next
  assume "\<bar>x\<bar> < 10 ^ 21"
  then show "\<bar>toFixed2 x - x\<bar> \<le> 1 / 200" by (rule toFixed2_close)
qed

theorem outputs_rounded_decisions_unrounded_witness:
  "vs_stopLossPercentage (calculateVolatilityStop 100 2.999 1) = 3
   \<and> vs_recommendation (calculateVolatilityStop 100 2.999 1) = BUY
   \<and> (\<exists>rs. calculateVolatilityStopTrailing roundingSeries 1 2 = Inr rs
        \<and> calculateATR roundingSeries 1 = Inr (1 / 500) \<and> 1 < length rs
        \<and> sd_close (roundingSeries ! (1 + 1)) = 100.008
        \<and> referenceStates 2 (1 / 500) (map sd_close (drop 1 roundingSeries)) ! 1 = (100.006, UP)
        \<and> vr_stopLoss (rs ! 0) = 100.01
        \<and> vr_close (rs ! 1) = 100.01
        \<and> vr_stopLoss (rs ! 1) = 100.01
        \<and> vr_trend (rs ! 1) = UP
        \<and> vr_signal (rs ! 1) = BUY)
   \<and> (\<exists>rs. calculateVolatilityStopTrailing thresholdSeries 1 1 = Inr rs
        \<and> calculateATR thresholdSeries 1 = Inr (2997 / 1000) \<and> 0 < length rs
        \<and> sd_close (thresholdSeries ! (1 + 0)) = 100
        \<and> referenceStates 1 (2997 / 1000) (map sd_close (drop 1 thresholdSeries)) ! 0 = (97003 / 1000, UP)
        \<and> \<bar>((100 - 97003 / 1000) / 100) * 100 :: real\<bar> = 2997 / 1000
        \<and> vr_stopLossPercentage (rs ! 0) = 3
        \<and> vr_signal (rs ! 0) = BUY)
   \<and> \<bar>100.006 :: real\<bar> < 10 ^ 21
   \<and> toFixed2 100.006 = 100.01"
proof -
  obtain rs where ev: "calculateVolatilityStopTrailing roundingSeries 1 2 = Inr rs"
    and rs0: "vr_stopLoss (rs ! 0) = 100.01"
    using roundingSeries_trailing by auto
  have len: "1 < length rs"
    using ev unfolding roundingSeries_trailing by auto
  have price: "100.008 = sd_close (roundingSeries ! (1 + 1))"
    by (simp add: roundingSeries_def flatBar_def)
  have st: "(100.006, UP) = referenceStates 2 (1 / 500) (map sd_close (drop 1 roundingSeries)) ! 1"
    unfolding roundingSeries_states by simp
  have r: "toFixed2 100.006 = 100.01" "\<bar>100.006 :: real\<bar> < 10 ^ 21"
    by (simp_all add: toFixed2_def)
  note inst = outputs_rounded_decisions_unrounded
    [where currentPrice = 100 and a = "2.999" and m = 1 and data = roundingSeries
       and atrPeriod = 1 and multiplier = 2 and rs = rs and atr = "1 / 500" and k = 1
       and price = "100.008" and s = "(100.006, UP)"
       and pct = "\<bar>((100.008 - fst (100.006 :: real, UP)) / 100.008) * 100\<bar>"
       and x = "100.006"]
  from inst have static: "vs_stopLossPercentage (calculateVolatilityStop 100 2.999 1) = 3
      \<and> vs_recommendation (calculateVolatilityStop 100 2.999 1) = BUY"
    by (simp add: toFixed2_def)
  have hyp: "calculateVolatilityStopTrailing roundingSeries 1 2 = Inr rs
      \<and> calculateATR roundingSeries 1 = Inr (1 / 500) \<and> 1 < length rs
      \<and> 100.008 = sd_close (roundingSeries ! (1 + 1))
      \<and> (100.006, UP) = referenceStates 2 (1 / 500) (map sd_close (drop 1 roundingSeries)) ! 1
      \<and> \<bar>((100.008 - fst (100.006 :: real, UP)) / 100.008) * 100\<bar>
          = \<bar>((100.008 - fst (100.006 :: real, UP)) / 100.008) * 100\<bar>"
    using ev roundingSeries_atr len price st by (intro conjI refl)
  from inst [THEN conjunct2, THEN conjunct1, THEN mp, OF hyp]
  have tr: "vr_close (rs ! 1) = 100.01 \<and> vr_stopLoss (rs ! 1) = 100.01
      \<and> vr_trend (rs ! 1) = UP \<and> vr_signal (rs ! 1) = BUY"
    by (simp add: toFixed2_def)
  obtain ts where tev: "calculateVolatilityStopTrailing thresholdSeries 1 1 = Inr ts"
    using thresholdSeries_trailing by auto
  have tlen: "0 < length ts"
    using tev unfolding thresholdSeries_trailing by auto
  have tatr: "calculateATR thresholdSeries 1 = Inr (2997 / 1000)"
    by (rule thresholdSeries_atr)
  have tprice: "100 = sd_close (thresholdSeries ! (1 + 0))"
    by (simp add: thresholdSeries_def flatBar_def)
  have tst: "(97003 / 1000, UP) = referenceStates 1 (2997 / 1000) (map sd_close (drop 1 thresholdSeries)) ! 0"
    unfolding thresholdSeries_states by simp
  have tpct: "2997 / 1000 = \<bar>((100 - fst (97003 / 1000 :: real, UP)) / 100) * 100\<bar>" by simp
  have thyp: "calculateVolatilityStopTrailing thresholdSeries 1 1 = Inr ts
      \<and> calculateATR thresholdSeries 1 = Inr (2997 / 1000) \<and> 0 < length ts
      \<and> 100 = sd_close (thresholdSeries ! (1 + 0))
      \<and> (97003 / 1000, UP) = referenceStates 1 (2997 / 1000) (map sd_close (drop 1 thresholdSeries)) ! 0
      \<and> 2997 / 1000 = \<bar>((100 - fst (97003 / 1000 :: real, UP)) / 100) * 100\<bar>"
    using tev tatr tlen tprice tst tpct by (intro conjI)
  from outputs_rounded_decisions_unrounded
    [where data = thresholdSeries and atrPeriod = 1 and multiplier = 1 and rs = ts
       and atr = "2997 / 1000" and k = 0 and price = 100 and s = "(97003 / 1000, UP)" and pct = "2997 / 1000",
     THEN conjunct2, THEN conjunct1, THEN mp, OF thyp]
  have tt: "vr_stopLossPercentage (ts ! 0) = 3 \<and> vr_signal (ts ! 0) = BUY"
    by (simp add: toFixed2_def)
  have a: "\<exists>rs. calculateVolatilityStopTrailing roundingSeries 1 2 = Inr rs
        \<and> calculateATR roundingSeries 1 = Inr (1 / 500) \<and> 1 < length rs
        \<and> sd_close (roundingSeries ! (1 + 1)) = 100.008
        \<and> referenceStates 2 (1 / 500) (map sd_close (drop 1 roundingSeries)) ! 1 = (100.006, UP)
        \<and> vr_stopLoss (rs ! 0) = 100.01
        \<and> vr_close (rs ! 1) = 100.01
        \<and> vr_stopLoss (rs ! 1) = 100.01
        \<and> vr_trend (rs ! 1) = UP
        \<and> vr_signal (rs ! 1) = BUY"
    using ev roundingSeries_atr len price st rs0 tr by (intro conjI exI [of _ rs]) simp_all
  have b: "\<exists>rs. calculateVolatilityStopTrailing thresholdSeries 1 1 = Inr rs
        \<and> calculateATR thresholdSeries 1 = Inr (2997 / 1000) \<and> 0 < length rs
        \<and> sd_close (thresholdSeries ! (1 + 0)) = 100
        \<and> referenceStates 1 (2997 / 1000) (map sd_close (drop 1 thresholdSeries)) ! 0 = (97003 / 1000, UP)
        \<and> \<bar>((100 - 97003 / 1000) / 100) * 100 :: real\<bar> = 2997 / 1000
        \<and> vr_stopLossPercentage (rs ! 0) = 3
        \<and> vr_signal (rs ! 0) = BUY"
    using tev tatr tlen tprice tst tt by (intro conjI exI [of _ ts]) simp_all
  from static a b r show ?thesis by (intro conjI) simp_all
qed

text \<open>
  C10. The signal of a returned point is decided by the trend, by the input close against
  the stop before rounding, and by the distance percentage before rounding: BUY exactly
  in an uptrend with the close above the stop and a distance under 3 percent, SELL exactly
  in a downtrend with the close below the stop and a distance under 3 percent, and HOLD
  in every other configuration.
\<close>

theorem signal_characterisation:
  assumes "calculateVolatilityStopTrailing data atrPeriod multiplier = Inr rs"
    and "calculateATR data atrPeriod = Inr atr"
    and "k < length rs"
    and "price = sd_close (data ! (atrPeriod + k))"
    and "stop = fst (referenceStates multiplier atr (map sd_close (drop atrPeriod data)) ! k)"
  shows "vr_stopLoss (rs ! k) = toFixed2 stop
     \<and> (vr_signal (rs ! k) = BUY \<longleftrightarrow>
          vr_trend (rs ! k) = UP \<and> stop < price \<and> distancePercentage price stop < 3)
     \<and> (vr_signal (rs ! k) = SELL \<longleftrightarrow>
          vr_trend (rs ! k) = DOWN \<and> price < stop \<and> distancePercentage price stop < 3)
     \<and> (vr_signal (rs ! k) = HOLD \<longleftrightarrow>
          \<not> (vr_trend (rs ! k) = UP \<and> stop < price \<and> distancePercentage price stop < 3)
          \<and> \<not> (vr_trend (rs ! k) = DOWN \<and> price < stop \<and> distancePercentage price stop < 3))"
proof -
  have valid: "atrPeriod + 1 \<le> length data"
    using trailing_result_nth(1) [OF assms(1) assms(3)] .
  have atr: "atr = referenceATR data atrPeriod"
    using assms(2) calculateATR_valid [OF valid] by simp
  have pt: "rs ! k = trailingPoint atr (data ! (atrPeriod + k))
      (referenceStates multiplier atr (map sd_close (drop atrPeriod data)) ! k)"
    unfolding atr using trailing_result_nth(3) [OF assms(1) assms(3)] .
  show ?thesis
    unfolding pt assms(4) assms(5)
    by (cases "snd (referenceStates multiplier atr (map sd_close (drop atrPeriod data)) ! k)")
       (simp_all add: trailingPoint_def trailingSignal_def)
qed


theorem signal_characterisation_witness:
  "\<exists>rs. calculateVolatilityStopTrailing reversalSeries 1 2 = Inr rs
     \<and> calculateATR reversalSeries 1 = Inr (1 / 2)
     \<and> 2 < length rs
     \<and> 90 = sd_close (reversalSeries ! (1 + 2))
     \<and> 91 = fst (referenceStates 2 (1 / 2) (map sd_close (drop 1 reversalSeries)) ! 2)
     \<and> vr_stopLoss (rs ! 2) = toFixed2 91
     \<and> vr_signal (rs ! 2) = SELL
     \<and> vr_trend (rs ! 2) = DOWN \<and> (90 :: real) < 91 \<and> distancePercentage 90 91 < 3"
proof -
  obtain rs where ev: "calculateVolatilityStopTrailing reversalSeries 1 2 = Inr rs"
    and rs: "rs =
     [\<lparr>vr_date = ''2024-01-02'', vr_close = 101, vr_atr = 1 / 2, vr_stopLoss = 100,
        vr_stopLossPercentage = 99 / 100, vr_trend = UP, vr_signal = BUY\<rparr>,
      \<lparr>vr_date = ''2024-01-03'', vr_close = 103, vr_atr = 1 / 2, vr_stopLoss = 102,
        vr_stopLossPercentage = 97 / 100, vr_trend = UP, vr_signal = BUY\<rparr>,
      \<lparr>vr_date = ''2024-01-04'', vr_close = 90, vr_atr = 1 / 2, vr_stopLoss = 91,
        vr_stopLossPercentage = 111 / 100, vr_trend = DOWN, vr_signal = SELL\<rparr>,
      \<lparr>vr_date = ''2024-01-05'', vr_close = 181 / 2, vr_atr = 1 / 2, vr_stopLoss = 91,
        vr_stopLossPercentage = 11 / 20, vr_trend = DOWN, vr_signal = SELL\<rparr>]"
    using reversalSeries_trailing by blast
  have len: "2 < length rs" by (simp add: rs)
  have price: "90 = sd_close (reversalSeries ! (1 + 2))"
    by (simp add: reversalSeries_def flatBar_def)
  have stop: "91 = fst (referenceStates 2 (1 / 2) (map sd_close (drop 1 reversalSeries)) ! 2)"
    unfolding reversalSeries_states by simp
  have sell: "vr_signal (rs ! 2) = SELL" by (simp add: rs)
  from signal_characterisation [OF ev reversalSeries_atr len price stop] sell
  have "vr_stopLoss (rs ! 2) = toFixed2 91"
    and "vr_trend (rs ! 2) = DOWN \<and> (90 :: real) < 91 \<and> distancePercentage 90 91 < 3"
    by simp_all
  with ev reversalSeries_atr len price stop sell show ?thesis
    by (intro exI [of _ rs] conjI) simp_all
qed

end
